theory Spec2Isabelle
  imports Complex_Main
begin

section \<open>Floating-point values\<close>

text \<open>
  The dashboard computes with Python floats and with numpy/pandas float64 columns.
  A value is a finite number, one of the two infinities or NaN.  Finite values are
  modelled as exact reals: rounding, overflow and the sign of a zero are not tracked.
\<close>

datatype npfloat = Fin real | PInf | NInf | NaN

fun np_neg :: "npfloat \<Rightarrow> npfloat" where
  "np_neg (Fin x) = Fin (- x)"
| "np_neg PInf = NInf"
| "np_neg NInf = PInf"
| "np_neg NaN = NaN"

fun np_add :: "npfloat \<Rightarrow> npfloat \<Rightarrow> npfloat" where
  "np_add (Fin x) (Fin y) = Fin (x + y)"
| "np_add NaN _ = NaN"
| "np_add _ NaN = NaN"
| "np_add PInf NInf = NaN"
| "np_add NInf PInf = NaN"
| "np_add PInf _ = PInf"
| "np_add _ PInf = PInf"
| "np_add NInf _ = NInf"
| "np_add _ NInf = NInf"

definition np_sub :: "npfloat \<Rightarrow> npfloat \<Rightarrow> npfloat" where
  "np_sub a b = np_add a (np_neg b)"

fun np_mul :: "npfloat \<Rightarrow> npfloat \<Rightarrow> npfloat" where
  "np_mul (Fin x) (Fin y) = Fin (x * y)"
| "np_mul NaN _ = NaN"
| "np_mul _ NaN = NaN"
| "np_mul (Fin x) PInf = (if x = 0 then NaN else if 0 < x then PInf else NInf)"
| "np_mul (Fin x) NInf = (if x = 0 then NaN else if 0 < x then NInf else PInf)"
| "np_mul PInf (Fin y) = (if y = 0 then NaN else if 0 < y then PInf else NInf)"
| "np_mul NInf (Fin y) = (if y = 0 then NaN else if 0 < y then NInf else PInf)"
| "np_mul PInf PInf = PInf"
| "np_mul PInf NInf = NInf"
| "np_mul NInf PInf = NInf"
| "np_mul NInf NInf = PInf"

text \<open>
  numpy division never raises: a finite non-zero value over zero is an infinity,
  zero over zero is NaN.
\<close>

fun np_div :: "npfloat \<Rightarrow> npfloat \<Rightarrow> npfloat" where
  "np_div (Fin x) (Fin y) =
     (if y \<noteq> 0 then Fin (x / y) else if 0 < x then PInf else if x < 0 then NInf else NaN)"
| "np_div NaN _ = NaN"
| "np_div _ NaN = NaN"
| "np_div (Fin x) PInf = Fin 0"
| "np_div (Fin x) NInf = Fin 0"
| "np_div PInf (Fin y) = (if 0 \<le> y then PInf else NInf)"
| "np_div NInf (Fin y) = (if 0 \<le> y then NInf else PInf)"
| "np_div PInf PInf = NaN"
| "np_div PInf NInf = NaN"
| "np_div NInf PInf = NaN"
| "np_div NInf NInf = NaN"

text \<open>Comparison \<open>a < b\<close>: false whenever an operand is NaN.\<close>

fun np_less :: "npfloat \<Rightarrow> npfloat \<Rightarrow> bool" where
  "np_less (Fin x) (Fin y) = (x < y)"
| "np_less NaN _ = False"
| "np_less _ NaN = False"
| "np_less PInf _ = False"
| "np_less _ NInf = False"
| "np_less _ PInf = True"
| "np_less NInf _ = True"

definition np_le :: "npfloat \<Rightarrow> npfloat \<Rightarrow> bool" where
  "np_le a b = (a \<noteq> NaN \<and> b \<noteq> NaN \<and> \<not> np_less b a)"

section \<open>Python errors\<close>

datatype py_error = ZeroDivisionError | ValueError

text \<open>
  Python's own \<open>/\<close> on floats raises ZeroDivisionError when the divisor is zero,
  whatever the dividend; otherwise it divides as numpy does.
\<close>

definition py_truediv :: "npfloat \<Rightarrow> npfloat \<Rightarrow> py_error + npfloat" where
  "py_truediv a b = (if b = Fin 0 then Inl ZeroDivisionError else Inr (np_div a b))"

section \<open>Latest quote and the daily percent change\<close>

text \<open>The two fields of \<open>yf.Ticker(t).fast_info\<close> the pages read, converted by \<open>float\<close>.\<close>

record quote =
  last_price :: npfloat
  previous_close :: npfloat

text \<open>
  Candle Stick Viewer, lines 132-135:
  \<^verbatim>\<open>change_pct = (last_price - prev_close) / prev_close * 100\<close>
\<close>

definition candle_change_pct :: "quote \<Rightarrow> py_error + npfloat" where
  "candle_change_pct info =
     (let last = last_price info; prev = previous_close info in
      case py_truediv (np_sub last prev) prev of
        Inl e \<Rightarrow> Inl e
      | Inr q \<Rightarrow> Inr (np_mul q (Fin 100)))"

text \<open>
  Oil, lines 82-88: the same expression, once for Brent and once for WTI.
\<close>

definition oil_change :: "quote \<Rightarrow> py_error + npfloat" where
  "oil_change info =
     (let live = last_price info; prev = previous_close info in
      case py_truediv (np_sub live prev) prev of
        Inl e \<Rightarrow> Inl e
      | Inr q \<Rightarrow> Inr (np_mul q (Fin 100)))"

text \<open>
  Metals, lines 181-189.  The body of the \<open>try\<close> guards the division with
  \<open>if prev_close != 0 else np.nan\<close>; any exception (the quote lookup failing is
  \<open>None\<close> here) yields a row of NaN.  The result is
  \<open>(last_price, prev_close, change_abs, change_pct)\<close>.
\<close>

definition metals_metric :: "quote option \<Rightarrow> npfloat \<times> npfloat \<times> npfloat \<times> npfloat" where
  "metals_metric fast_info =
     (case fast_info of
        None \<Rightarrow> (NaN, NaN, NaN, NaN)
      | Some info \<Rightarrow>
          (let last = last_price info; prev = previous_close info in
           case (if prev \<noteq> Fin 0
                 then (case py_truediv (np_sub last prev) prev of
                         Inl e \<Rightarrow> Inl e
                       | Inr q \<Rightarrow> Inr (np_mul q (Fin 100)))
                 else Inr NaN) of
             Inl e \<Rightarrow> (NaN, NaN, NaN, NaN)
           | Inr change_pct \<Rightarrow> (last, prev, np_sub last prev, change_pct)))"

definition metals_change_pct :: "quote option \<Rightarrow> npfloat" where
  "metals_change_pct fast_info = snd (snd (snd (metals_metric fast_info)))"

section \<open>Download interval\<close>

text \<open>
  Dates are day numbers, so \<open>(end - start).days\<close> is the difference.
  Metals, lines 104-110, and Oil, lines 53-59.
\<close>

definition metals_interval :: "int \<Rightarrow> int \<Rightarrow> string" where
  "metals_interval start endd =
     (let delta_days = endd - start in
      if delta_days \<le> 7 then ''1m''
      else if delta_days \<le> 60 then ''15m''
      else ''1d'')"

definition oil_interval :: "int \<Rightarrow> int \<Rightarrow> string" where
  "oil_interval start endd =
     (let delta_days = endd - start in
      if delta_days \<le> 7 then ''1m''
      else if delta_days \<le> 60 then ''15m''
      else ''1d'')"

section \<open>pandas operations on a column\<close>

text \<open>
  A column is the list of its values in row order.  The operations below are the
  pandas calls the pages make, with the behaviour pandas documents for them.
\<close>

text \<open>\<open>Series.diff()\<close>: the first row has no predecessor and is NaN.\<close>

definition diff :: "npfloat list \<Rightarrow> npfloat list" where
  "diff xs = (case xs of [] \<Rightarrow> [] | x # rest \<Rightarrow> NaN # map2 np_sub rest xs)"

text \<open>\<open>Series.pct_change()\<close>: \<open>x / x.shift(1) - 1\<close>.\<close>

definition pct_change :: "npfloat list \<Rightarrow> npfloat list" where
  "pct_change xs =
     (case xs of [] \<Rightarrow> []
      | x # rest \<Rightarrow> NaN # map2 (\<lambda>cur prev. np_sub (np_div cur prev) (Fin 1)) rest xs)"

text \<open>\<open>Series.where(cond, other)\<close>: keep a value where the condition holds.\<close>

definition series_where :: "(npfloat \<Rightarrow> bool) \<Rightarrow> npfloat \<Rightarrow> npfloat list \<Rightarrow> npfloat list" where
  "series_where cond other xs = map (\<lambda>x. if cond x then x else other) xs"

text \<open>
  The rolling aggregations work on the observations of a window: its values without
  the NaN, an infinity counting as NaN.
\<close>

fun observations :: "npfloat list \<Rightarrow> real list" where
  "observations [] = []"
| "observations (Fin x # vs) = x # observations vs"
| "observations (v # vs) = observations vs"

definition mean :: "real list \<Rightarrow> real" where
  "mean xs = sum_list xs / real (length xs)"

definition agg_mean :: "real list \<Rightarrow> npfloat" where
  "agg_mean obs = (if obs = [] then NaN else Fin (mean obs))"

text \<open>Sample variance and standard deviation (\<open>ddof = 1\<close>, the pandas default).\<close>

definition var_ddof1 :: "real list \<Rightarrow> real" where
  "var_ddof1 xs = sum_list (map (\<lambda>x. (x - mean xs)\<^sup>2) xs) / (real (length xs) - 1)"

definition agg_std :: "real list \<Rightarrow> npfloat" where
  "agg_std obs = (if length obs \<le> 1 then NaN else Fin (sqrt (var_ddof1 obs)))"

text \<open>
  Quantile of the observations with linear interpolation (the default), for
  \<open>0 \<le> q \<le> 1\<close>: position \<open>q * (n - 1)\<close> in the sorted observations.
\<close>

definition agg_quantile :: "real \<Rightarrow> real list \<Rightarrow> npfloat" where
  "agg_quantile q obs =
     (if obs = [] then NaN
      else (let s = sort obs;
                pos = q * (real (length obs) - 1);
                idx = nat \<lfloor>pos\<rfloor>
            in if pos = real idx then Fin (s ! idx)
               else Fin (s ! idx + (s ! (idx + 1) - s ! idx) * (pos - real idx))))"

text \<open>
  \<open>Series.rolling(window).agg()\<close> with an integer window: row \<open>i\<close> sees the rows
  \<open>i - window + 1 .. i\<close> and needs \<open>window\<close> observations (\<open>min_periods\<close> defaults to
  the window), else it is NaN.
\<close>

definition rolling :: "nat \<Rightarrow> (real list \<Rightarrow> npfloat) \<Rightarrow> npfloat list \<Rightarrow> npfloat list" where
  "rolling window agg xs =
     map (\<lambda>i. let obs = observations (drop (Suc i - window) (take (Suc i) xs))
              in if window \<le> length obs then agg obs else NaN)
         [0..<length xs]"

text \<open>
  \<open>Series.rolling("<w>D").agg()\<close> on a column indexed by increasing time stamps
  (as the data provider delivers them): row \<open>i\<close> sees the rows up to \<open>i\<close> whose time
  stamp lies in \<open>(t\<^sub>i - w, t\<^sub>i]\<close> and needs one observation (\<open>min_periods\<close> defaults
  to 1 for a time window).
\<close>

definition rolling_time ::
  "int \<Rightarrow> (real list \<Rightarrow> npfloat) \<Rightarrow> int list \<Rightarrow> npfloat list \<Rightarrow> npfloat list" where
  "rolling_time w agg index xs =
     map (\<lambda>i. let obs = observations
                          (map (\<lambda>j. xs ! j) (filter (\<lambda>j. index ! i - w < index ! j) [0..<Suc i]))
              in if 1 \<le> length obs then agg obs else NaN)
         [0..<length xs]"

text \<open>
  \<open>Series.ewm(span=spn, adjust=False).mean()\<close> on a column without NaN.  pandas
  derives \<open>com = (spn - 1) / 2\<close> and \<open>alpha = 1 / (1 + com)\<close>, starts from the first
  value and folds each later value in with the weights \<open>1 - alpha\<close> and \<open>alpha\<close>,
  normalised by their sum.
\<close>

fun ewm_loop :: "real \<Rightarrow> real \<Rightarrow> real list \<Rightarrow> real list" where
  "ewm_loop alpha weighted [] = []"
| "ewm_loop alpha weighted (cur # rest) =
     (let old_wt = 1 * (1 - alpha);
          new_wt = alpha;
          weighted' = (old_wt * weighted + new_wt * cur) / (old_wt + new_wt)
      in weighted' # ewm_loop alpha weighted' rest)"

definition ewm_mean :: "nat \<Rightarrow> real list \<Rightarrow> real list" where
  "ewm_mean spn xs =
     (let com = (real spn - 1) / 2;
          alpha = 1 / (1 + com)
      in case xs of [] \<Rightarrow> [] | x # rest \<Rightarrow> x # ewm_loop alpha x rest)"

section \<open>Candle Stick Viewer: the indicator columns\<close>

text \<open>
  \<open>close\<close> is \<open>data["Close"]\<close>: the Close prices of the fetched rows after
  \<open>dropna()\<close>, finite numbers.
\<close>

text \<open>Tab 2 (lines 202-204) adds three columns to \<open>data\<close>.\<close>

definition ema_columns :: "real list \<Rightarrow> (string \<times> real list) list" where
  "ema_columns close =
     [(''EMA20'', ewm_mean 20 close),
      (''EMA50'', ewm_mean 50 close),
      (''EMA200'', ewm_mean 200 close)]"

text \<open>Tab 4 (lines 260-263), with \<open>window = 20\<close>.\<close>

definition close_std20 :: "real list \<Rightarrow> npfloat list" where
  "close_std20 close = rolling 20 agg_std (map Fin close)"

definition MA20 :: "real list \<Rightarrow> npfloat list" where
  "MA20 close = rolling 20 agg_mean (map Fin close)"

definition BB_upper :: "real list \<Rightarrow> npfloat list" where
  "BB_upper close = map2 np_add (MA20 close) (map (np_mul (Fin 2)) (close_std20 close))"

definition BB_lower :: "real list \<Rightarrow> npfloat list" where
  "BB_lower close = map2 np_sub (MA20 close) (map (np_mul (Fin 2)) (close_std20 close))"

text \<open>Tab 5 (lines 286-290).\<close>

definition RSI :: "real list \<Rightarrow> npfloat list" where
  "RSI close =
     (let delta = diff (map Fin close);
          gain = rolling 14 agg_mean (series_where (\<lambda>d. np_less (Fin 0) d) (Fin 0) delta);
          loss = rolling 14 agg_mean
                   (map np_neg (series_where (\<lambda>d. np_less d (Fin 0)) (Fin 0) delta));
          rs = map2 np_div gain loss
      in map (\<lambda>r. np_sub (Fin 100) (np_div (Fin 100) (np_add (Fin 1) r))) rs)"

text \<open>
  Tab 3 (lines 237-241).  \<open>dates\<close> is \<open>data["Date"]\<close> in day numbers, \<open>vol_window\<close>
  the number of days of the window and \<open>var_level\<close> the slider's integer.
\<close>

definition returns :: "real list \<Rightarrow> npfloat list" where
  "returns close = pct_change (map Fin close)"

definition roll_vol :: "int list \<Rightarrow> real list \<Rightarrow> int \<Rightarrow> npfloat list" where
  "roll_vol dates close vol_window =
     map (\<lambda>v. np_mul v (Fin (sqrt 252))) (rolling_time vol_window agg_std dates (returns close))"

definition roll_var :: "int list \<Rightarrow> real list \<Rightarrow> int \<Rightarrow> int \<Rightarrow> npfloat list" where
  "roll_var dates close vol_window var_level =
     rolling_time vol_window (agg_quantile ((100 - real_of_int var_level) / 100.0)) dates
       (returns close)"

section \<open>Oil: returns and rolling volatility\<close>

text \<open>
  Oil, lines 65-72 and 122: \<open>data\<close> is the Close frame of Brent and WTI after
  \<open>dropna()\<close>, indexed by time stamps (in seconds here); \<open>returns\<close> is
  \<open>data.pct_change().dropna()\<close>, the rows in which neither return is NaN.
\<close>

definition oil_returns :: "int list \<Rightarrow> real list \<Rightarrow> real list \<Rightarrow> (int \<times> npfloat \<times> npfloat) list" where
  "oil_returns index brent wti =
     filter (\<lambda>(t, b, w). b \<noteq> NaN \<and> w \<noteq> NaN)
       (zip index (zip (pct_change (map Fin brent)) (pct_change (map Fin wti))))"

text \<open>
  Oil, lines 143-144: \<open>returns.rolling("30D").std() * np.sqrt(252)\<close>, one column per
  crude; 30 days are 2592000 seconds.
\<close>

definition oil_vol :: "int list \<Rightarrow> real list \<Rightarrow> real list \<Rightarrow> npfloat list \<times> npfloat list" where
  "oil_vol index brent wti =
     (let rets = oil_returns index brent wti;
          ts = map fst rets;
          std_brent = rolling_time 2592000 agg_std ts (map (\<lambda>row. fst (snd row)) rets);
          std_wti = rolling_time 2592000 agg_std ts (map (\<lambda>row. snd (snd row)) rets)
      in (map (\<lambda>v. np_mul v (Fin (sqrt 252))) std_brent,
          map (\<lambda>v. np_mul v (Fin (sqrt 252))) std_wti))"

section \<open>What a page renders\<close>

text \<open>
  A run of a page script is the list of the Streamlit elements it has rendered, in
  order, and the exception that stopped it, if one did.  A chart is recorded by its
  title and the dates (or time stamps) on the x axis of its traces; the y values are
  the columns defined above.  A histogram has no dates.  A message built from an
  f-string is recorded without the interpolated values.
\<close>

datatype ui = Error string | Warning string | Caption string
  | Metric string | Chart string "int list"

subsection \<open>Candle Stick Viewer\<close>

text \<open>
  \<open>data\<close> (line 118) holds the fetched rows, from 365 days before \<open>start\<close> on, after
  \<open>dropna().reset_index()\<close>.
\<close>

record bar =
  Date :: int
  Open :: real
  High :: real
  Low :: real
  Close :: real
  Volume :: real

text \<open>
  Lines 121, 206, 265 and 292:
  \<^verbatim>\<open>data[(data["Date"] >= pd.to_datetime(start)) & (data["Date"] <= pd.to_datetime(end))]\<close>
\<close>

definition in_range :: "int \<Rightarrow> int \<Rightarrow> bar list \<Rightarrow> bar list" where
  "in_range start endd data = filter (\<lambda>row. start \<le> Date row \<and> Date row \<le> endd) data"

text \<open>
  Lines 121-314.  An empty \<open>display_data\<close> gives the error message and nothing but
  the footer.  Otherwise the quote metrics come first (the division may raise) and
  then the five tabs: tabs 1, 2, 4 and 5 plot a frame filtered to the range, tab 3
  plots \<open>returns["Date"]\<close>, the Date column of all of \<open>data\<close>.
\<close>

definition candle_page ::
  "int \<Rightarrow> int \<Rightarrow> bar list \<Rightarrow> quote \<Rightarrow> ui list \<times> py_error option" where
  "candle_page start endd data info =
     (let display_data = in_range start endd data in
      if display_data = []
      then ([Error ''No data found for this date range.'', Caption ''footer''], None)
      else (case candle_change_pct info of
              Inl e \<Rightarrow> ([], Some e)
            | Inr change_pct \<Rightarrow>
                (let ema_display = in_range start endd data;
                     bb_display = in_range start endd data;
                     rsi_display = in_range start endd data
                 in ([Metric ''Last Price (Daily % Change)'',
                      Metric ''Previous Close'',
                      Metric ''Change ($)'',
                      Chart ''Candlestick'' (map Date display_data),
                      Chart ''EMA Overlay'' (map Date ema_display),
                      Chart ''Rolling Volatility & VaR'' (map Date data),
                      Chart ''Bollinger Bands'' (map Date bb_display),
                      Chart ''RSI'' (map Date rsi_display),
                      Caption ''footer''], None))))"

subsection \<open>Metals\<close>

text \<open>
  \<open>raw\<close> (line 115) is what the download returned: \<open>None\<close>, or a frame with its row
  index and its columns.  \<open>raw.empty\<close> holds when it has no row or no column.
\<close>

record raw_frame =
  raw_index :: "int list"
  raw_columns :: "(string \<times> npfloat list) list"

definition frame_empty :: "raw_frame \<Rightarrow> bool" where
  "frame_empty raw = (raw_index raw = [] \<or> raw_columns raw = [])"

text \<open>
  Lines 63-125: no selection stops the script with a warning, no data with an
  error; \<open>rest\<close> is the script from line 127 on, run on the downloaded frame.
\<close>

definition metals_page ::
  "string list \<Rightarrow> raw_frame option \<Rightarrow> (raw_frame \<Rightarrow> ui list) \<Rightarrow> ui list" where
  "metals_page selected_tickers raw rest =
     (if length selected_tickers = 0 then [Warning ''Select at least one metal.'']
      else (case raw of
              None \<Rightarrow> [Error ''No data returned for the selected tickers/date range.'']
            | Some frame \<Rightarrow>
                if frame_empty frame
                then [Error ''No data returned for the selected tickers/date range.'']
                else rest frame))"

subsection \<open>Oil\<close>

text \<open>
  Lines 53-260.  \<open>index\<close>, \<open>brent\<close> and \<open>wti\<close> are the rows of \<open>data\<close> (line 65) after
  \<open>dropna()\<close>.  The script never tests \<open>data\<close> for emptiness.  It renders the caption
  and the six quote metrics (each division may raise) and then draws its charts with
  \<open>px.line(frame, x=frame.index, y=[columns])\<close>.  On a frame without rows that call
  raises ValueError: plotly express takes the empty \<open>x\<close> for a list of column
  references and refuses a list of columns for both \<open>x\<close> and \<open>y\<close>.  So an empty
  \<open>data\<close> stops the script at the price chart (line 116), and an empty \<open>returns\<close>
  (a single row of data, say) stops it at the returns chart (line 123).
\<close>

definition oil_page ::
  "int \<Rightarrow> int \<Rightarrow> int list \<Rightarrow> real list \<Rightarrow> real list \<Rightarrow> quote \<Rightarrow> quote \<Rightarrow> int
   \<Rightarrow> ui list \<times> py_error option" where
  "oil_page start endd index brent wti brent_info wti_info window_days =
     (let head = [Caption ''Data interval automatically set''] in
      case oil_change brent_info of
        Inl e \<Rightarrow> (head, Some e)
      | Inr brent_change \<Rightarrow>
     (case oil_change wti_info of
        Inl e \<Rightarrow> (head, Some e)
      | Inr wti_change \<Rightarrow>
     (let metrics = head @
            [Metric ''Brent Last Price'', Metric ''Brent Previous Close'', Metric ''Brent Change ($)'',
             Metric ''WTI Last Price'', Metric ''WTI Previous Close'', Metric ''WTI Change ($)''];
          rets = oil_returns index brent wti
      in if index = [] then (metrics, Some ValueError)
         else if rets = []
         then (metrics @ [Chart ''Brent vs WTI Price Chart'' index], Some ValueError)
         else (metrics @
            [Chart ''Brent vs WTI Price Chart'' index,
             Chart ''Returns Comparison'' (map fst rets),
             Chart ''Rolling Volatility'' (map fst rets),
             (if endd - start < window_days
              then Error ''Not enough data for a rolling window.''
              else Chart ''Rolling Mean & Std'' index),
             Metric ''Current Spread'', Metric ''Average Spread'',
             Metric ''5th Percentile'', Metric ''95th Percentile'',
             Chart ''Spread'' index,
             Chart ''Spread histogram'' [],
             Chart ''Rolling Correlation'' index,
             Caption ''footer''], None))))"

section \<open>The formulas as the specification words them\<close>

text \<open>
  The 20-period simple moving average and sample standard deviation at row \<open>i\<close>,
  written as sums over the rows \<open>i - 19 .. i\<close>.
\<close>

definition spec_sma20 :: "real list \<Rightarrow> nat \<Rightarrow> real" where
  "spec_sma20 close i = (\<Sum>j = i - 19..i. close ! j) / 20"

definition spec_sd20 :: "real list \<Rightarrow> nat \<Rightarrow> real" where
  "spec_sd20 close i = sqrt ((\<Sum>j = i - 19..i. (close ! j - spec_sma20 close i)\<^sup>2) / 19)"

text \<open>
  The gains and losses behind the RSI: the rise, respectively the fall, of Close
  from the row before, and 0 where there is none (the first row has no row before).
\<close>

definition up_moves :: "real list \<Rightarrow> real list" where
  "up_moves close =
     (case close of [] \<Rightarrow> [] | x # rest \<Rightarrow> 0 # map2 (\<lambda>cur prev. max (cur - prev) 0) rest close)"

definition down_moves :: "real list \<Rightarrow> real list" where
  "down_moves close =
     (case close of [] \<Rightarrow> [] | x # rest \<Rightarrow> 0 # map2 (\<lambda>cur prev. max (prev - cur) 0) rest close)"

text \<open>
  The RSI of row \<open>i\<close>: \<open>100 - 100 / (1 + rs)\<close>, where \<open>rs\<close> is the mean of the gains
  of the 14 rows \<open>i - 13 .. i\<close> over the mean of their losses.
\<close>

definition spec_avg14 :: "real list \<Rightarrow> nat \<Rightarrow> real" where
  "spec_avg14 xs i = (\<Sum>j = i - 13..i. xs ! j) / 14"

definition spec_rsi :: "real list \<Rightarrow> nat \<Rightarrow> npfloat" where
  "spec_rsi close i =
     (let rs = np_div (Fin (spec_avg14 (up_moves close) i)) (Fin (spec_avg14 (down_moves close) i))
      in np_sub (Fin 100) (np_div (Fin 100) (np_add (Fin 1) rs)))"

text \<open>
  The unadjusted exponential moving average of a span: it starts at the first Close
  and each later value is \<open>alpha * Close[t] + (1 - alpha) * EMA[t-1]\<close> with
  \<open>alpha = 2 / (span + 1)\<close>.
\<close>

definition spec_unadjusted_ema :: "nat \<Rightarrow> real list \<Rightarrow> real list \<Rightarrow> bool" where
  "spec_unadjusted_ema spn close ema \<longleftrightarrow>
     length ema = length close \<and>
     (\<forall>t<length close.
        ema ! t = (if t = 0 then close ! 0
                   else 2 / (real spn + 1) * close ! t
                        + (1 - 2 / (real spn + 1)) * ema ! (t - 1)))"

text \<open>
  The daily percent-change returns within the rolling window that ends at row \<open>i\<close>:
  the returns \<open>Close[j] / Close[j-1] - 1\<close> of the rows \<open>j \<le> i\<close> dated within the
  last \<open>w\<close> days.  A return over a zero Close is undefined and is no observation.
\<close>

definition spec_window_returns :: "int list \<Rightarrow> real list \<Rightarrow> int \<Rightarrow> nat \<Rightarrow> real list" where
  "spec_window_returns dates close w i =
     map (\<lambda>j. close ! j / close ! (j - 1) - 1)
       (filter (\<lambda>j. dates ! i - w < dates ! j \<and> close ! (j - 1) \<noteq> 0) [1..<Suc i])"

text \<open>
  The \<open>p\<close>-th percentile of a sample, interpolating linearly between the two
  nearest order statistics.
\<close>

definition spec_percentile :: "real \<Rightarrow> real list \<Rightarrow> real" where
  "spec_percentile p xs =
     (let s = sort xs;
          h = p / 100 * (real (length xs) - 1);
          k = nat \<lfloor>h\<rfloor>
      in if h = real k then s ! k else s ! k + (h - real k) * (s ! (k + 1) - s ! k))"

text \<open>The sample standard deviation.\<close>

definition spec_sample_sd :: "real list \<Rightarrow> real" where
  "spec_sample_sd xs =
     sqrt ((\<Sum>k<length xs. (xs ! k - (\<Sum>k<length xs. xs ! k) / real (length xs))\<^sup>2)
           / (real (length xs) - 1))"

text \<open>
  The rows of the Oil returns frame, as row numbers of \<open>data\<close>: every row but the
  first, except a row where a crude's Close and its Close of the row before are both
  0 (that return is 0 / 0, NaN, and \<open>dropna()\<close> removes the row).
\<close>

definition spec_oil_kept_rows :: "real list \<Rightarrow> real list \<Rightarrow> nat list" where
  "spec_oil_kept_rows brent wti =
     filter (\<lambda>j. \<not> (brent ! j = 0 \<and> brent ! (j - 1) = 0) \<and> \<not> (wti ! j = 0 \<and> wti ! (j - 1) = 0))
       [1..<length brent]"

text \<open>
  The percent-change returns of one crude within the 30-day window that ends at the
  \<open>k\<close>-th row of the returns frame: \<open>price[j] / price[j-1] - 1\<close> for the kept rows \<open>j\<close>
  up to that row whose time stamp lies within the last 30 days.  A return over a
  zero Close is undefined and is no observation.
\<close>

definition spec_oil_window_returns :: "int list \<Rightarrow> real list \<Rightarrow> nat list \<Rightarrow> nat \<Rightarrow> real list" where
  "spec_oil_window_returns index price kept k =
     map (\<lambda>j. price ! j / price ! (j - 1) - 1)
       (filter (\<lambda>j. index ! (kept ! k) - 2592000 < index ! j \<and> price ! (j - 1) \<noteq> 0)
          (take (Suc k) kept))"

section \<open>Results\<close>

subsection \<open>Percent change on a zero previous close\<close>

lemma metals_change_pct_zero_prev:
  "metals_change_pct (Some \<lparr>last_price = l, previous_close = Fin 0\<rparr>) = NaN"
  by (simp add: metals_change_pct_def metals_metric_def Let_def)

text \<open>
  C1.  The claim: on a quote whose previous close is 0, the percent change of every
  page is NaN and no division error is raised.  The Metals page does that
  (\<open>metals_change_pct_zero_prev\<close>).  The Candle Stick Viewer and the Oil page divide
  unguarded: at last price 1 and previous close 0 both raise ZeroDivisionError,
  where Metals returns NaN.
\<close>

theorem change_pct_unguarded:
  "candle_change_pct \<lparr>last_price = Fin 1, previous_close = Fin 0\<rparr> = Inl ZeroDivisionError
   \<and> oil_change \<lparr>last_price = Fin 1, previous_close = Fin 0\<rparr> = Inl ZeroDivisionError
   \<and> metals_change_pct (Some \<lparr>last_price = Fin 1, previous_close = Fin 0\<rparr>) = NaN"
  by (simp add: candle_change_pct_def oil_change_def py_truediv_def
      metals_change_pct_def metals_metric_def Let_def)

subsection \<open>Interval selection\<close>

text \<open>
  C9.  Metals and Oil choose the download interval by the same total function of
  \<open>d = (end - start).days\<close>: 1m exactly when \<open>d \<le> 7\<close>, 15m exactly when
  \<open>7 < d \<le> 60\<close>, and 1d exactly when \<open>60 < d\<close>.
\<close>

theorem interval_selection:
  "metals_interval start endd = oil_interval start endd
   \<and> (metals_interval start endd = ''1m'') = (endd - start \<le> 7)
   \<and> (metals_interval start endd = ''15m'') = (7 < endd - start \<and> endd - start \<le> 60)
   \<and> (metals_interval start endd = ''1d'') = (60 < endd - start)"
  by (simp add: metals_interval_def oil_interval_def Let_def)

subsection \<open>Rolling windows\<close>

lemma length_rolling [simp]: "length (rolling w agg xs) = length xs"
  by (simp add: rolling_def)

lemma observations_map_Fin [simp]: "observations (map Fin xs) = xs"
  by (induction xs) simp_all

lemma rolling_nth:
  "i < length xs \<Longrightarrow>
   rolling w agg xs ! i =
     (let obs = observations (drop (Suc i - w) (take (Suc i) xs))
      in if w \<le> length obs then agg obs else NaN)"
  by (simp add: rolling_def)

lemma rolling_Fin_nth:
  assumes "i < length xs"
  shows "rolling w agg (map Fin xs) ! i =
     (if w \<le> Suc i then agg (drop (Suc i - w) (take (Suc i) xs)) else NaN)"
proof -
  have "drop (Suc i - w) (take (Suc i) (map Fin xs)) = map Fin (drop (Suc i - w) (take (Suc i) xs))"
    by (simp add: drop_map take_map)
  moreover have "length (drop (Suc i - w) (take (Suc i) xs)) = Suc i - (Suc i - w)"
    using assms by simp
  ultimately show ?thesis
    using assms by (auto simp add: rolling_nth Let_def)
qed

lemma drop_take_nth:
  assumes "b \<le> length xs"
  shows "drop a (take b xs) = map (\<lambda>j. xs ! j) [a..<b]"
  using assms by (intro nth_equalityI) auto

lemma window_sum:
  assumes "i < length xs"
  shows "sum_list (map f (drop a (take (Suc i) xs))) = (\<Sum>j = a..i. f (xs ! j))"
proof -
  have "sum_list (map f (drop a (take (Suc i) xs))) = sum_list (map (\<lambda>j. f (xs ! j)) [a..<Suc i])"
    using assms by (simp add: drop_take_nth comp_def)
  also have "\<dots> = (\<Sum>j = a..i. f (xs ! j))"
    by (simp only: interv_sum_list_conv_sum_set_nat set_upt atLeastLessThanSuc_atLeastAtMost)
  finally show ?thesis .
qed

subsection \<open>Bollinger Bands\<close>

text \<open>The window of row \<open>i\<close> has 20 rows from row 19 on; its mean and deviation are the sums of the specification.\<close>

lemma window20:
  assumes "19 \<le> i" "i < length close"
  shows "mean (drop (i - 19) (take (Suc i) close)) = spec_sma20 close i"
    and "sqrt (var_ddof1 (drop (i - 19) (take (Suc i) close))) = spec_sd20 close i"
    and "length (drop (i - 19) (take (Suc i) close)) = 20"
proof -
  let ?w = "drop (i - 19) (take (Suc i) close)"
  show len: "length ?w = 20" using assms by simp
  have s: "sum_list ?w = (\<Sum>j = i - 19..i. close ! j)"
    using window_sum [OF assms(2), of "\<lambda>x. x" "i - 19"] by simp
  show m: "mean ?w = spec_sma20 close i"
    unfolding mean_def spec_sma20_def len s by simp
  show "sqrt (var_ddof1 ?w) = spec_sd20 close i"
    unfolding var_ddof1_def spec_sd20_def m len
    using window_sum [OF assms(2), of "\<lambda>x. (x - spec_sma20 close i)\<^sup>2" "i - 19"] by simp
qed

lemma bollinger_nth:
  assumes "19 \<le> i" "i < length close"
  shows "MA20 close ! i = Fin (mean (drop (i - 19) (take (Suc i) close)))"
    and "close_std20 close ! i = Fin (sqrt (var_ddof1 (drop (i - 19) (take (Suc i) close))))"
    and "BB_upper close ! i = Fin (mean (drop (i - 19) (take (Suc i) close))
           + 2 * sqrt (var_ddof1 (drop (i - 19) (take (Suc i) close))))"
    and "BB_lower close ! i = Fin (mean (drop (i - 19) (take (Suc i) close))
           - 2 * sqrt (var_ddof1 (drop (i - 19) (take (Suc i) close))))"
proof -
  let ?w = "drop (i - 19) (take (Suc i) close)"
  have len: "length ?w = 20" using assms by simp
  have ne: "?w \<noteq> []" using len by auto
  have d: "Suc i - 20 = i - 19" by simp
  show ma: "MA20 close ! i = Fin (mean ?w)"
    using assms ne by (simp add: MA20_def rolling_Fin_nth agg_mean_def d)
  show sd: "close_std20 close ! i = Fin (sqrt (var_ddof1 ?w))"
    using assms len by (simp add: close_std20_def rolling_Fin_nth agg_std_def d)
  have l1: "i < length (MA20 close)" using assms by (simp add: MA20_def)
  have l2: "i < length (close_std20 close)" using assms by (simp add: close_std20_def)
  show "BB_upper close ! i = Fin (mean ?w + 2 * sqrt (var_ddof1 ?w))"
    using l1 l2 by (simp add: BB_upper_def ma sd)
  show "BB_lower close ! i = Fin (mean ?w - 2 * sqrt (var_ddof1 ?w))"
    using l1 l2 by (simp add: BB_lower_def ma sd np_sub_def)
qed

text \<open>
  C5.  At every row with at least 20 observations (row 19 on), the moving average
  column is the 20-period simple moving average, the upper band is that average plus
  2 times the 20-period sample standard deviation and the lower band the average
  minus 2 times it; so the bands are symmetric: upper + lower = 2 * MA20.
\<close>

theorem bollinger_bands:
  assumes "19 \<le> i" "i < length close"
  shows "MA20 close ! i = Fin (spec_sma20 close i)
       \<and> BB_upper close ! i = Fin (spec_sma20 close i + 2 * spec_sd20 close i)
       \<and> BB_lower close ! i = Fin (spec_sma20 close i - 2 * spec_sd20 close i)
       \<and> np_add (BB_upper close ! i) (BB_lower close ! i) = np_mul (Fin 2) (MA20 close ! i)"
  using bollinger_nth [OF assms] window20 [OF assms] by simp

theorem bollinger_bands_witness:
  "(19::nat) \<le> 19 \<and> 19 < length (replicate 20 (1::real))
   \<and> np_add (BB_upper (replicate 20 1) ! 19) (BB_lower (replicate 20 1) ! 19)
       = np_mul (Fin 2) (MA20 (replicate 20 1) ! 19)"
  using bollinger_bands [of 19 "replicate 20 1"] by simp

text \<open>A series of 19 closes at 0 followed by one close at 100.\<close>

lemma spike_mean: "mean (replicate 19 0 @ [100]) = 5"
  by (simp add: mean_def sum_list_replicate)

lemma spike_var: "var_ddof1 (replicate 19 0 @ [100]) = 500"
  by (simp add: var_ddof1_def spike_mean sum_list_replicate)

lemma spike_nth:
  "close_std20 (replicate 19 0 @ [100]) ! 19 = Fin (sqrt 500)"
  "BB_upper (replicate 19 0 @ [100]) ! 19 = Fin (5 + 2 * sqrt 500)"
  "MA20 (replicate 19 0 @ [100]) ! 19 = Fin 5"
  using bollinger_nth [of 19 "replicate 19 0 @ [100]"]
  by (simp_all add: spike_mean spike_var)

lemma sqrt500: "sqrt 500 < 47" "0 < sqrt 500"
  by (rule real_less_lsqrt; simp) simp

text \<open>
  On that series the deviation at row 19 is positive (\<open>sqrt 500\<close>) and the upper band
  is \<open>5 + 2 * sqrt 500 < 100\<close>: the close of row 19 lies above the upper band.
\<close>

theorem bands_do_not_bracket_close:
  "np_less (Fin 0) (close_std20 (replicate 19 0 @ [100]) ! 19)
   \<and> \<not> np_le (Fin ((replicate 19 0 @ [100]) ! 19)) (BB_upper (replicate 19 0 @ [100]) ! 19)"
  using sqrt500 by (simp add: spike_nth np_le_def nth_append)

text \<open>
  How far a value can lie from the mean of its window: for a window of \<open>n\<close> values,
  \<open>n * (x - mean)\<^sup>2\<close> is at most \<open>n - 1\<close> times the sum of the squared deviations.
\<close>

lemma sum_sq_dev_expand:
  "sum_list (map (\<lambda>x. (x - a)\<^sup>2) xs)
     = sum_list (map (\<lambda>x. x\<^sup>2) xs) - 2 * a * sum_list xs + real (length xs) * a\<^sup>2"
  for a :: real
  by (induction xs) (simp_all add: algebra_simps power2_eq_square)

lemma sum_sq_bound:
  "(sum_list xs)\<^sup>2 \<le> real (length xs) * sum_list (map (\<lambda>x. x\<^sup>2) xs)"
  for xs :: "real list"
proof (cases "xs = []")
  case True
  then show ?thesis by simp
next
  case False
  define n where "n = real (length xs)"
  define S where "S = sum_list xs"
  define Q where "Q = sum_list (map (\<lambda>x. x\<^sup>2) xs)"
  have n: "0 < n" using False by (simp add: n_def)
  have "0 \<le> sum_list (map (\<lambda>x. (x - S / n)\<^sup>2) xs)"
    by (rule sum_list_nonneg) auto
  also have "\<dots> = Q - 2 * (S / n) * S + n * (S / n)\<^sup>2"
    by (simp add: sum_sq_dev_expand Q_def S_def n_def)
  also have "\<dots> = Q - S\<^sup>2 / n"
    using n by (simp add: power2_eq_square field_simps)
  finally have "S\<^sup>2 / n \<le> Q" by simp
  then have "S\<^sup>2 \<le> n * Q" using n by (simp add: field_simps)
  then show ?thesis by (simp add: n_def S_def Q_def)
qed

lemma sum_list_remove_nth:
  fixes ds :: "real list"
  assumes "k < length ds"
  shows "sum_list (take k ds @ drop (Suc k) ds) = sum_list ds - ds ! k"
proof -
  have "ds = take k ds @ ds ! k # drop (Suc k) ds"
    using assms by (rule id_take_nth_drop)
  then have "sum_list ds = sum_list (take k ds @ ds ! k # drop (Suc k) ds)" by simp
  then show ?thesis by simp
qed

lemma deviation_bound:
  assumes "k < length w"
  shows "real (length w) * (w ! k - mean w)\<^sup>2
         \<le> (real (length w) - 1) * sum_list (map (\<lambda>x. (x - mean w)\<^sup>2) w)"
proof -
  define ds where "ds = map (\<lambda>x. x - mean w) w"
  define r where "r = take k ds @ drop (Suc k) ds"
  define d where "d = w ! k - mean w"
  define SS where "SS = sum_list (map (\<lambda>x. (x - mean w)\<^sup>2) w)"
  have k: "k < length ds" using assms by (simp add: ds_def)
  have dk: "ds ! k = d" using assms by (simp add: ds_def d_def)
  have n: "0 < real (length w)" using assms by auto
  have "sum_list (map (\<lambda>x. x - c) w) = sum_list w - real (length w) * c" for c
    by (induction w) (simp_all add: algebra_simps)
  then have "sum_list ds = sum_list w - real (length w) * mean w"
    by (simp add: ds_def)
  also have "\<dots> = 0" using n by (simp add: mean_def)
  finally have s0: "sum_list ds = 0" .
  have sr: "sum_list r = - d"
    unfolding r_def using sum_list_remove_nth [OF k] s0 dk by simp
  have sq: "map (\<lambda>x. x\<^sup>2) ds = map (\<lambda>x. (x - mean w)\<^sup>2) w"
    by (simp add: ds_def comp_def)
  have "sum_list (map (\<lambda>x. x\<^sup>2) r) = sum_list (map (\<lambda>x. x\<^sup>2) ds) - (ds ! k)\<^sup>2"
    unfolding r_def
    using sum_list_remove_nth [of k "map (\<lambda>x. x\<^sup>2) ds"] k
    by (simp add: take_map drop_map)
  then have qr: "sum_list (map (\<lambda>x. x\<^sup>2) r) = SS - d\<^sup>2"
    by (simp add: sq dk SS_def)
  have lr: "real (length r) = real (length w) - 1"
    using k by (simp add: r_def ds_def min_def of_nat_diff)
  from sum_sq_bound [of r] have "d\<^sup>2 \<le> (real (length w) - 1) * (SS - d\<^sup>2)"
    by (simp add: sr qr lr)
  then show ?thesis
    unfolding d_def [symmetric] SS_def [symmetric] by (simp add: algebra_simps)
qed

lemma close_within_wide_band:
  assumes "19 \<le> i" "i < length close"
  shows "\<bar>close ! i - spec_sma20 close i\<bar> \<le> 19 / sqrt 20 * spec_sd20 close i"
proof -
  let ?w = "drop (i - 19) (take (Suc i) close)"
  have len: "length ?w = 20" using assms by simp
  have last: "?w ! 19 = close ! i" using assms by simp
  define d where "d = close ! i - mean ?w"
  define SS where "SS = sum_list (map (\<lambda>x. (x - mean ?w)\<^sup>2) ?w)"
  have l19: "19 < length ?w" using assms by simp
  have "real (length ?w) * (?w ! 19 - mean ?w)\<^sup>2
         \<le> (real (length ?w) - 1) * sum_list (map (\<lambda>x. (x - mean ?w)\<^sup>2) ?w)"
    using l19 by (rule deviation_bound)
  then have b: "20 * d\<^sup>2 \<le> 19 * SS"
    unfolding len last d_def SS_def by simp
  have v: "var_ddof1 ?w = SS / 19"
    unfolding var_ddof1_def len SS_def by simp
  have "d\<^sup>2 \<le> (19 / sqrt 20)\<^sup>2 * var_ddof1 ?w"
    using b by (simp add: v power_divide)
  then have "sqrt (d\<^sup>2) \<le> sqrt ((19 / sqrt 20)\<^sup>2 * var_ddof1 ?w)"
    by (rule real_sqrt_le_mono)
  then have "\<bar>d\<bar> \<le> 19 / sqrt 20 * sqrt (var_ddof1 ?w)"
    by (simp add: real_sqrt_mult)
  then show ?thesis
    using window20 [OF assms] by (simp add: d_def)
qed

text \<open>
  C2, amended.  At every row where the 20-period rolling standard deviation of Close
  is strictly positive, the lower band lies strictly below the moving average and
  the moving average strictly below the upper band.  The bands bracket the average,
  not the price: the Close may lie outside them, and is only bound to lie within
  \<open>19 / sqrt 20\<close> (about 4.25) standard deviations of the moving average.
\<close>

theorem bands_bracket_average:
  assumes "i < length close" "np_less (Fin 0) (close_std20 close ! i)"
  shows "np_less (BB_lower close ! i) (MA20 close ! i)
       \<and> np_less (MA20 close ! i) (BB_upper close ! i)
       \<and> MA20 close ! i = Fin (spec_sma20 close i)
       \<and> close_std20 close ! i = Fin (spec_sd20 close i)
       \<and> \<bar>close ! i - spec_sma20 close i\<bar> \<le> 19 / sqrt 20 * spec_sd20 close i"
proof (cases "19 \<le> i")
  case False
  then have "close_std20 close ! i = NaN"
    using assms(1) by (simp add: close_std20_def rolling_Fin_nth)
  with assms(2) show ?thesis by simp
next
  case True
  note b = bollinger_nth [OF True assms(1)]
  note w = window20 [OF True assms(1)]
  from assms(2) have "0 < sqrt (var_ddof1 (drop (i - 19) (take (Suc i) close)))"
    by (simp add: b)
  then have "np_less (BB_lower close ! i) (MA20 close ! i)
       \<and> np_less (MA20 close ! i) (BB_upper close ! i)"
    by (simp add: b)
  moreover have "MA20 close ! i = Fin (spec_sma20 close i)
       \<and> close_std20 close ! i = Fin (spec_sd20 close i)"
    by (simp add: b w)
  ultimately show ?thesis
    using close_within_wide_band [OF True assms(1)] by simp
qed

theorem bands_bracket_average_witness:
  "19 < length (replicate 19 (0::real) @ [100])
   \<and> np_less (Fin 0) (close_std20 (replicate 19 0 @ [100]) ! 19)
   \<and> np_less (BB_lower (replicate 19 0 @ [100]) ! 19) (MA20 (replicate 19 0 @ [100]) ! 19)
   \<and> np_less (MA20 (replicate 19 0 @ [100]) ! 19) (BB_upper (replicate 19 0 @ [100]) ! 19)"
proof -
  have l: "19 < length (replicate 19 (0::real) @ [100])" by simp
  have p: "np_less (Fin 0) (close_std20 (replicate 19 0 @ [100]) ! 19)"
    using sqrt500 by (simp add: spike_nth)
  note t = bands_bracket_average [OF l p]
  from l p t [THEN conjunct1] t [THEN conjunct2, THEN conjunct1]
  show ?thesis by (intro conjI)
qed

subsection \<open>RSI\<close>

lemma length_diff [simp]: "length (diff xs) = length xs"
  by (cases xs) (simp_all add: diff_def)

lemma length_up_moves [simp]: "length (up_moves close) = length close"
  by (cases close) (simp_all add: up_moves_def)

lemma length_down_moves [simp]: "length (down_moves close) = length close"
  by (cases close) (simp_all add: down_moves_def)

lemma gain_zip:
  "map (\<lambda>x. if np_less (Fin 0) x then x else Fin 0) (map2 np_sub (map Fin xs) (map Fin ys))
     = map Fin (map2 (\<lambda>cur prev. max (cur - prev) 0) xs ys)"
  by (induction xs ys rule: list_induct2') (simp_all add: np_sub_def max_def)

lemma loss_zip:
  "map np_neg (map (\<lambda>x. if np_less x (Fin 0) then x else Fin 0)
      (map2 np_sub (map Fin xs) (map Fin ys)))
     = map Fin (map2 (\<lambda>cur prev. max (prev - cur) 0) xs ys)"
  by (induction xs ys rule: list_induct2') (simp_all add: np_sub_def max_def)

lemma gain_input:
  "series_where (\<lambda>d. np_less (Fin 0) d) (Fin 0) (diff (map Fin close)) = map Fin (up_moves close)"
proof (cases close)
  case Nil
  then show ?thesis by (simp add: series_where_def diff_def up_moves_def)
next
  case (Cons a rest)
  show ?thesis
    using gain_zip [of rest close]
    by (simp add: series_where_def diff_def up_moves_def Cons)
qed

lemma loss_input:
  "map np_neg (series_where (\<lambda>d. np_less d (Fin 0)) (Fin 0) (diff (map Fin close)))
     = map Fin (down_moves close)"
proof (cases close)
  case Nil
  then show ?thesis by (simp add: series_where_def diff_def down_moves_def)
next
  case (Cons a rest)
  show ?thesis
    using loss_zip [of rest close]
    by (simp add: series_where_def diff_def down_moves_def Cons)
qed

lemma RSI_nth:
  assumes "i < length close"
  shows "RSI close ! i =
     (if 13 \<le> i
      then np_sub (Fin 100) (np_div (Fin 100) (np_add (Fin 1)
             (np_div (Fin (mean (drop (i - 13) (take (Suc i) (up_moves close)))))
                     (Fin (mean (drop (i - 13) (take (Suc i) (down_moves close))))))))
      else NaN)"
proof -
  have ne: "13 \<le> i \<Longrightarrow> drop (i - 13) (take (Suc i) xs) \<noteq> []" if "length xs = length close" for xs :: "real list"
    using assms that by simp
  have d: "Suc i - 14 = i - 13" by simp
  have g: "rolling 14 agg_mean (map Fin (up_moves close)) ! i =
      (if 13 \<le> i then Fin (mean (drop (i - 13) (take (Suc i) (up_moves close)))) else NaN)"
    using assms ne [of "up_moves close"] by (simp add: rolling_Fin_nth agg_mean_def d)
  have l: "rolling 14 agg_mean (map Fin (down_moves close)) ! i =
      (if 13 \<le> i then Fin (mean (drop (i - 13) (take (Suc i) (down_moves close)))) else NaN)"
    using assms ne [of "down_moves close"] by (simp add: rolling_Fin_nth agg_mean_def d)
  show ?thesis
    using assms
    by (simp add: RSI_def Let_def gain_input loss_input g l np_sub_def)
qed


lemma length_RSI [simp]: "length (RSI close) = length close"
  by (simp add: RSI_def Let_def series_where_def)

lemma mean_zero_window: "mean (drop a (take b (replicate n 0))) = 0"
  by (simp add: mean_def sum_list_replicate del: replicate_Suc)

lemma up_moves_nth:
  assumes "0 < i" "i < length close"
  shows "up_moves close ! i = max (close ! i - close ! (i - 1)) 0"
proof (cases close)
  case Nil
  with assms show ?thesis by simp
next
  case (Cons a rest)
  from assms obtain k where k: "i = Suc k" by (cases i) auto
  with assms Cons have "k < length rest" by simp
  then show ?thesis by (simp add: up_moves_def Cons k)
qed

lemma down_moves_nth:
  assumes "0 < i" "i < length close"
  shows "down_moves close ! i = max (close ! (i - 1) - close ! i) 0"
proof (cases close)
  case Nil
  with assms show ?thesis by simp
next
  case (Cons a rest)
  from assms obtain k where k: "i = Suc k" by (cases i) auto
  with assms Cons have "k < length rest" by simp
  then show ?thesis by (simp add: down_moves_def Cons k)
qed

lemma moves_0: "close \<noteq> [] \<Longrightarrow> up_moves close ! 0 = 0 \<and> down_moves close ! 0 = 0"
  by (cases close) (simp_all add: up_moves_def down_moves_def)

lemma up_moves_replicate: "up_moves (replicate n c) = replicate n 0"
proof (intro nth_equalityI)
  fix i assume "i < length (up_moves (replicate n c))"
  then show "up_moves (replicate n c) ! i = replicate n 0 ! i"
    using moves_0 [of "replicate n c"] up_moves_nth [of i "replicate n c"]
    by (cases "i = 0") auto
qed simp

lemma down_moves_replicate: "down_moves (replicate n c) = replicate n 0"
proof (intro nth_equalityI)
  fix i assume "i < length (down_moves (replicate n c))"
  then show "down_moves (replicate n c) ! i = replicate n 0 ! i"
    using moves_0 [of "replicate n c"] down_moves_nth [of i "replicate n c"]
    by (cases "i = 0") auto
qed simp

lemma up_moves_nonneg: "x \<in> set (up_moves close) \<Longrightarrow> 0 \<le> x"
  by (cases close) (auto simp add: up_moves_def)

lemma down_moves_increasing:
  assumes "sorted_wrt (<) close"
  shows "down_moves close = replicate (length close) 0"
proof (intro nth_equalityI)
  show "length (down_moves close) = length (replicate (length close) (0::real))" by simp
next
  fix i assume "i < length (down_moves close)"
  then have i: "i < length close" by simp
  show "down_moves close ! i = replicate (length close) 0 ! i"
  proof (cases "i = 0")
    case True
    with i show ?thesis using moves_0 [of close] by auto
  next
    case False
    then have "close ! (i - 1) < close ! i"
      using assms i by (simp add: sorted_wrt_nth_less)
    with False i show ?thesis by (simp add: down_moves_nth)
  qed
qed

lemma up_window_positive:
  assumes "sorted_wrt (<) close" "13 \<le> i" "i < length close"
  shows "0 < mean (drop (i - 13) (take (Suc i) (up_moves close)))"
proof -
  let ?w = "drop (i - 13) (take (Suc i) (up_moves close))"
  have w: "?w = map (\<lambda>j. up_moves close ! j) [i - 13..<Suc i]"
    using assms(3) by (simp add: drop_take_nth)
  have "close ! (i - 1) < close ! i"
    using assms by (simp add: sorted_wrt_nth_less)
  then have pos: "0 < up_moves close ! i"
    using assms by (simp add: up_moves_nth)
  have mem: "up_moves close ! i \<in> set ?w"
    unfolding w set_map by (rule image_eqI [where x = i]) auto
  have nonneg: "\<And>x. x \<in> set ?w \<Longrightarrow> 0 \<le> x"
    by (meson in_set_dropD in_set_takeD up_moves_nonneg)
  have "(sum_list ?w = 0) = (\<forall>x\<in>set ?w. x = 0)"
    by (rule sum_list_nonneg_eq_0_iff) (rule nonneg)
  then have "sum_list ?w \<noteq> 0"
    using mem pos by auto
  moreover have "0 \<le> sum_list ?w"
    using nonneg by (rule sum_list_nonneg)
  ultimately have "0 < sum_list ?w" by simp
  moreover have "0 < length ?w" using assms by simp
  ultimately show ?thesis by (simp add: mean_def)
qed

lemma avg14_window:
  assumes "13 \<le> i" "i < length xs"
  shows "mean (drop (i - 13) (take (Suc i) xs)) = spec_avg14 xs i"
proof -
  let ?w = "drop (i - 13) (take (Suc i) xs)"
  have len: "length ?w = 14" using assms by simp
  have s: "sum_list ?w = (\<Sum>j = i - 13..i. xs ! j)"
    using window_sum [OF assms(2), of "\<lambda>x. x" "i - 13"] by simp
  show ?thesis unfolding mean_def spec_avg14_def len s by simp
qed

lemma RSI_formula:
  assumes "i < length close"
  shows "RSI close ! i = (if 13 \<le> i then spec_rsi close i else NaN)"
proof (cases "13 \<le> i")
  case False
  then show ?thesis by (simp add: RSI_nth [OF assms])
next
  case True
  have u: "mean (drop (i - 13) (take (Suc i) (up_moves close))) = spec_avg14 (up_moves close) i"
    using True assms by (intro avg14_window) simp_all
  have d: "mean (drop (i - 13) (take (Suc i) (down_moves close))) = spec_avg14 (down_moves close) i"
    using True assms by (intro avg14_window) simp_all
  show ?thesis
    unfolding RSI_nth [OF assms] u d spec_rsi_def Let_def using True by simp
qed

lemma RSI_constant: "RSI (replicate n c) = replicate n NaN"
proof (intro nth_equalityI)
  fix i assume "i < length (RSI (replicate n c))"
  then have i: "i < length (replicate n c)" by simp
  show "RSI (replicate n c) ! i = replicate n NaN ! i"
    unfolding RSI_nth [OF i] up_moves_replicate down_moves_replicate mean_zero_window
    using i by (simp add: np_sub_def)
qed simp

lemma RSI_increasing:
  assumes "sorted_wrt (<) close" "i < length close"
  shows "RSI close ! i = (if 13 \<le> i then Fin 100 else NaN)"
proof (cases "13 \<le> i")
  case False
  then show ?thesis by (simp add: RSI_nth [OF assms(2)])
next
  case True
  have "mean (drop (i - 13) (take (Suc i) (down_moves close))) = 0"
    unfolding down_moves_increasing [OF assms(1)] by (rule mean_zero_window)
  then show ?thesis
    using True up_window_positive [OF assms(1) True assms(2)]
    by (simp add: RSI_nth [OF assms(2)] np_sub_def)
qed

text \<open>
  A strictly increasing series of 15 closes: row 12 has no full 14-row window yet, and
  its RSI is NaN, not 100.
\<close>

theorem rsi_warmup_is_nan:
  "sorted_wrt (<) [1, 2, 3, 4, 5, 6, 7, 8, 9, 10, 11, 12, 13, 14, 15 :: real]
   \<and> 15 \<le> length [1, 2, 3, 4, 5, 6, 7, 8, 9, 10, 11, 12, 13, 14, 15 :: real]
   \<and> RSI [1, 2, 3, 4, 5, 6, 7, 8, 9, 10, 11, 12, 13, 14, 15] ! 12 = NaN
   \<and> RSI [1, 2, 3, 4, 5, 6, 7, 8, 9, 10, 11, 12, 13, 14, 15] ! 12 \<noteq> Fin 100"
  by (simp add: RSI_nth)

text \<open>
  C3, amended.  At every row with a full 14-row window (row 13 on) the RSI column is
  \<open>100 - 100 / (1 + rs)\<close>, with \<open>rs\<close> the 14-period rolling mean of the gains over
  that of the losses, and at the 13 rows before it is NaN.  For a constant price
  series of any length every RSI value is NaN (both means are 0, and 0 / 0 is NaN).
  For a strictly increasing price series the RSI is 100 at every row from row 13 on
  (the mean loss is 0, the mean gain positive) and NaN at the rows before.
\<close>

theorem rsi_formula_and_extremes:
  "(i < length close \<longrightarrow> RSI close ! i = (if 13 \<le> i then spec_rsi close i else NaN))
   \<and> RSI (replicate n c) = replicate n NaN
   \<and> (sorted_wrt (<) close \<longrightarrow> i < length close \<longrightarrow>
        RSI close ! i = (if 13 \<le> i then Fin 100 else NaN))"
  using RSI_formula RSI_constant RSI_increasing by blast

theorem rsi_formula_and_extremes_witness:
  "sorted_wrt (<) [1, 2, 3, 4, 5, 6, 7, 8, 9, 10, 11, 12, 13, 14, 15 :: real]
   \<and> (14::nat) < length [1, 2, 3, 4, 5, 6, 7, 8, 9, 10, 11, 12, 13, 14, 15 :: real]
   \<and> RSI [1, 2, 3, 4, 5, 6, 7, 8, 9, 10, 11, 12, 13, 14, 15] ! 14 = Fin 100
   \<and> RSI [1, 2, 3, 4, 5, 6, 7, 8, 9, 10, 11, 12, 13, 14, 15] ! 14
       = spec_rsi [1, 2, 3, 4, 5, 6, 7, 8, 9, 10, 11, 12, 13, 14, 15] 14
   \<and> RSI (replicate 15 7) = replicate 15 NaN"
proof -
  let ?c = "[1, 2, 3, 4, 5, 6, 7, 8, 9, 10, 11, 12, 13, 14, 15 :: real]"
  have h1: "sorted_wrt (<) ?c" by simp
  have h2: "(14::nat) < length ?c" by simp
  note t = rsi_formula_and_extremes [of 14 ?c 15 7]
  have a: "RSI ?c ! 14 = spec_rsi ?c 14"
    using t [THEN conjunct1] h2 by simp
  have b: "RSI ?c ! 14 = Fin 100"
    using t [THEN conjunct2, THEN conjunct2] h1 h2 by simp
  have c: "RSI (replicate 15 7) = replicate 15 NaN"
    using t [THEN conjunct2, THEN conjunct1] .
  from h1 h2 b a c show ?thesis by (intro conjI)
qed

subsection \<open>EMA overlay\<close>

lemma length_ewm_loop [simp]: "length (ewm_loop alpha w xs) = length xs"
  by (induction xs arbitrary: w) (simp_all add: Let_def)

lemma ewm_loop_step:
  "t < length xs \<Longrightarrow>
   (w # ewm_loop alpha w xs) ! Suc t = alpha * xs ! t + (1 - alpha) * (w # ewm_loop alpha w xs) ! t"
proof (induction xs arbitrary: w t)
  case Nil
  then show ?case by simp
next
  case (Cons cur rest)
  show ?case
  proof (cases t)
    case 0
    then show ?thesis by (simp add: Let_def)
  next
    case (Suc k)
    with Cons.prems have "k < length rest" by simp
    from Cons.IH [OF this, of "((1 - alpha) * w + alpha * cur) / (1 - alpha + alpha)"]
    show ?thesis by (simp add: Let_def Suc)
  qed
qed

lemma ewm_alpha: "1 / (1 + (real spn - 1) / 2) = 2 / (real spn + 1)"
  by (simp add: field_simps)

lemma ewm_mean_unadjusted: "spec_unadjusted_ema spn close (ewm_mean spn close)"
proof (cases close)
  case Nil
  then show ?thesis by (simp add: spec_unadjusted_ema_def ewm_mean_def)
next
  case (Cons x rest)
  have e: "ewm_mean spn close = x # ewm_loop (2 / (real spn + 1)) x rest"
    by (simp add: ewm_mean_def Let_def ewm_alpha Cons)
  have "ewm_mean spn close ! t =
          2 / (real spn + 1) * close ! t + (1 - 2 / (real spn + 1)) * ewm_mean spn close ! (t - 1)"
    if "t < length close" "t \<noteq> 0" for t
  proof -
    from that obtain k where k: "t = Suc k" by (cases t) auto
    with that Cons have "k < length rest" by simp
    from ewm_loop_step [OF this, of x "2 / (real spn + 1)"] show ?thesis
      by (simp add: e [unfolded Cons] k Cons)
  qed
  moreover have "ewm_mean spn close ! 0 = close ! 0" by (simp add: e [unfolded Cons] Cons)
  moreover have "length (ewm_mean spn close) = length close" by (simp add: e [unfolded Cons] Cons)
  ultimately show ?thesis by (simp add: spec_unadjusted_ema_def)
qed

text \<open>
  C4, amended.  The EMA Overlay tab computes exactly three EMA columns, for the
  spans 20, 50 and 200, and each satisfies the unadjusted recursive definition:
  \<open>EMA[0] = Close[0]\<close> and \<open>EMA[t] = alpha * Close[t] + (1 - alpha) * EMA[t-1]\<close>
  with \<open>alpha = 2 / (span + 1)\<close>.
\<close>

theorem ema_columns_unadjusted:
  "map_of (ema_columns close) ''EMA20'' = Some (ewm_mean 20 close)
   \<and> spec_unadjusted_ema 20 close (ewm_mean 20 close)
   \<and> map_of (ema_columns close) ''EMA50'' = Some (ewm_mean 50 close)
   \<and> spec_unadjusted_ema 50 close (ewm_mean 50 close)
   \<and> map_of (ema_columns close) ''EMA200'' = Some (ewm_mean 200 close)
   \<and> spec_unadjusted_ema 200 close (ewm_mean 200 close)
   \<and> map (\<lambda>c. fst c) (ema_columns close) = [''EMA20'', ''EMA50'', ''EMA200'']"
  by (simp add: ewm_mean_unadjusted) (simp add: ema_columns_def)

theorem ema_columns_unadjusted_witness:
  "map_of (ema_columns [1, 2]) ''EMA20'' = Some (ewm_mean 20 [1, 2])
   \<and> (1::nat) < length [1, 2 :: real]
   \<and> ewm_mean 20 [1, 2] ! 1 = 2 / (real 20 + 1) * [1, 2] ! 1
        + (1 - 2 / (real 20 + 1)) * ewm_mean 20 [1, 2] ! (1 - 1)"
proof -
  have s: "spec_unadjusted_ema 20 [1, 2] (ewm_mean 20 [1, 2])"
    and m: "map_of (ema_columns [1, 2]) ''EMA20'' = Some (ewm_mean 20 [1, 2])"
    using ema_columns_unadjusted [of "[1, 2]"] by simp_all
  have l: "(1::nat) < length [1, 2 :: real]" by simp
  from s have "\<forall>t<length [1, 2 :: real].
        ewm_mean 20 [1, 2] ! t = (if t = 0 then [1, 2] ! 0
                   else 2 / (real 20 + 1) * [1, 2] ! t
                        + (1 - 2 / (real 20 + 1)) * ewm_mean 20 [1, 2] ! (t - 1))"
    unfolding spec_unadjusted_ema_def by (rule conjunct2)
  from this [rule_format, OF l] m l show ?thesis by simp
qed

text \<open>
  The claim names the span 100 as well; the tab computes no column for it.
\<close>

theorem no_ema100_column:
  "map_of (ema_columns [1]) ''EMA100'' = None"
  by (simp add: ema_columns_def)

subsection \<open>Rolling volatility and VaR\<close>

lemma length_pct_change [simp]: "length (pct_change xs) = length xs"
  by (cases xs) (simp_all add: pct_change_def)

lemma length_rolling_time [simp]: "length (rolling_time w agg index xs) = length xs"
  by (simp add: rolling_time_def)

lemma rolling_time_nth:
  "i < length xs \<Longrightarrow>
   rolling_time w agg index xs ! i =
     (let obs = observations (map (\<lambda>j. xs ! j) (filter (\<lambda>j. index ! i - w < index ! j) [0..<Suc i]))
      in if 1 \<le> length obs then agg obs else NaN)"
  by (simp add: rolling_time_def)

lemma returns_0: "close \<noteq> [] \<Longrightarrow> returns close ! 0 = NaN"
  by (cases close) (simp_all add: returns_def pct_change_def)

lemma pct_change_nth:
  assumes "0 < j" "j < length xs"
  shows "pct_change xs ! j = np_sub (np_div (xs ! j) (xs ! (j - 1))) (Fin 1)"
proof (cases xs)
  case Nil
  with assms show ?thesis by simp
next
  case (Cons a rest)
  from assms obtain k where k: "j = Suc k" by (cases j) auto
  with assms Cons have "k < length rest" by simp
  then have "map2 (\<lambda>cur prev. np_sub (np_div cur prev) (Fin 1)) rest xs ! k
        = np_sub (np_div (rest ! k) (xs ! k)) (Fin 1)"
    by (simp add: Cons)
  then show ?thesis by (simp add: pct_change_def Cons k)
qed

lemma returns_nth:
  assumes "0 < j" "j < length close"
  shows "returns close ! j = np_sub (np_div (Fin (close ! j)) (Fin (close ! (j - 1)))) (Fin 1)"
  using assms by (simp add: returns_def pct_change_nth)

lemma observations_map:
  assumes "\<And>j. j \<in> set js \<Longrightarrow> P j \<Longrightarrow> f j = Fin (g j)"
    and "\<And>j x. j \<in> set js \<Longrightarrow> \<not> P j \<Longrightarrow> f j \<noteq> Fin x"
  shows "observations (map f js) = map g (filter P js)"
  using assms
proof (induction js)
  case Nil
  then show ?case by simp
next
  case (Cons j js)
  then have IH: "observations (map f js) = map g (filter P js)" by simp
  show ?case
  proof (cases "P j")
    case True
    with Cons.prems(1) [of j] IH show ?thesis by simp
  next
    case False
    with Cons.prems(2) [of j] IH show ?thesis by (cases "f j") auto
  qed
qed

lemma window_observations:
  assumes "i < length close"
  shows "observations (map (\<lambda>j. returns close ! j)
            (filter (\<lambda>j. dates ! i - w < dates ! j) [0..<Suc i]))
         = spec_window_returns dates close w i"
proof -
  let ?Q = "\<lambda>j. dates ! i - w < dates ! j"
  let ?P = "\<lambda>j. 0 < j \<and> close ! (j - 1) \<noteq> 0"
  let ?g = "\<lambda>j. close ! j / close ! (j - 1) - 1"
  have "observations (map (\<lambda>j. returns close ! j) (filter ?Q [0..<Suc i]))
        = map ?g (filter ?P (filter ?Q [0..<Suc i]))"
  proof (rule observations_map)
    fix j assume j: "j \<in> set (filter ?Q [0..<Suc i])" and p: "?P j"
    from j have "j \<in> set [0..<Suc i]" by (rule filter_is_subset [THEN subsetD])
    then have "j < Suc i" by (simp only: set_upt atLeastLessThan_iff)
    with assms have "j < length close" by simp
    with p show "returns close ! j = Fin (?g j)"
      by (simp add: returns_nth np_sub_def)
  next
    fix j x assume j: "j \<in> set (filter ?Q [0..<Suc i])" and n: "\<not> ?P j"
    show "returns close ! j \<noteq> Fin x"
    proof (cases "j = 0")
      case True
      from assms have "close \<noteq> []" by auto
      with True show ?thesis by (simp add: returns_0)
    next
      case False
      with n have z: "close ! (j - 1) = 0" by simp
      from j have "j \<in> set [0..<Suc i]" by (rule filter_is_subset [THEN subsetD])
    then have "j < Suc i" by (simp only: set_upt atLeastLessThan_iff)
      with assms have "j < length close" by simp
      with False z show ?thesis by (simp add: returns_nth np_sub_def)
    qed
  qed
  also have "filter ?P (filter ?Q [0..<Suc i])
             = filter (\<lambda>j. ?Q j \<and> close ! (j - 1) \<noteq> 0) [1..<Suc i]"
  proof -
    have "[0..<Suc i] = 0 # [1..<Suc i]" by (simp add: upt_conv_Cons)
    then have "filter ?P (filter ?Q [0..<Suc i]) = filter (\<lambda>j. ?Q j \<and> ?P j) [1..<Suc i]"
      by (simp add: conj_commute)
    also have "\<dots> = filter (\<lambda>j. ?Q j \<and> close ! (j - 1) \<noteq> 0) [1..<Suc i]"
      by (rule filter_cong) auto
    finally show ?thesis .
  qed
  finally show ?thesis by (simp add: spec_window_returns_def)
qed

lemma agg_quantile_percentile:
  "agg_quantile ((100 - p) / 100) obs
     = (if obs = [] then NaN else Fin (spec_percentile (100 - p) obs))"
proof (cases "obs = []")
  case True
  then show ?thesis by (simp add: agg_quantile_def)
next
  case False
  show ?thesis
    unfolding agg_quantile_def spec_percentile_def Let_def
    by (simp only: False if_False if_distrib [of Fin] mult.commute)
qed

lemma mean_nth_sum: "mean xs = (\<Sum>k<length xs. xs ! k) / real (length xs)"
  by (simp add: mean_def sum_list_sum_nth atLeast0LessThan)

lemma agg_std_sample_sd:
  "agg_std obs = (if length obs \<le> 1 then NaN else Fin (spec_sample_sd obs))"
proof -
  have "sum_list (map (\<lambda>x. (x - m)\<^sup>2) obs) = (\<Sum>k<length obs. (obs ! k - m)\<^sup>2)" for m
    by (simp add: sum_list_sum_nth atLeast0LessThan)
  then show ?thesis
    by (simp add: agg_std_def var_ddof1_def spec_sample_sd_def mean_nth_sum)
qed

text \<open>
  C6.  For every Close series, every window size and every VaR confidence level
  \<open>v\<close> in [90, 99], the rolling VaR at each date is the \<open>(100 - v)\<close>-th percentile of
  the daily percent-change returns within the window ending at that date, and NaN
  where the window holds no return (the first date).
\<close>

theorem rolling_var_is_percentile:
  assumes "sorted dates" "length dates = length close" "i < length close"
    and "90 \<le> var_level" "var_level \<le> 99"
  shows "roll_var dates close vol_window var_level ! i =
     (if spec_window_returns dates close vol_window i = [] then NaN
      else Fin (spec_percentile (100 - real_of_int var_level)
                  (spec_window_returns dates close vol_window i)))"
proof -
  have l: "i < length (returns close)" using assms(3) by (simp add: returns_def)
  show ?thesis
    unfolding roll_var_def rolling_time_nth [OF l] window_observations [OF assms(3)]
    by (simp add: agg_quantile_percentile Suc_le_eq)
qed

theorem rolling_var_is_percentile_witness:
  "sorted [0, 1, 2 :: int] \<and> length [0, 1, 2 :: int] = length [1, 2, 4 :: real]
   \<and> (2::nat) < length [1, 2, 4 :: real] \<and> (90::int) \<le> 95 \<and> (95::int) \<le> 99
   \<and> roll_var [0, 1, 2] [1, 2, 4] 30 95 ! 2 =
     (if spec_window_returns [0, 1, 2] [1, 2, 4] 30 2 = [] then NaN
      else Fin (spec_percentile (100 - real_of_int 95)
                  (spec_window_returns [0, 1, 2] [1, 2, 4] 30 2)))"
proof -
  have h1: "sorted [0, 1, 2 :: int]" by simp
  have h2: "length [0, 1, 2 :: int] = length [1, 2, 4 :: real]" by simp
  have h3: "(2::nat) < length [1, 2, 4 :: real]" by simp
  have h4: "(90::int) \<le> 95" by simp
  have h5: "(95::int) \<le> 99" by simp
  from h1 h2 h3 h4 h5 rolling_var_is_percentile [OF h1 h2 h3 h4 h5, of 30]
  show ?thesis by (intro conjI)
qed

lemma roll_vol_nth:
  assumes "sorted dates" "length dates = length close" "i < length close"
  shows "roll_vol dates close vol_window ! i =
     (if length (spec_window_returns dates close vol_window i) \<le> 1 then NaN
      else Fin (spec_sample_sd (spec_window_returns dates close vol_window i) * sqrt 252))"
proof -
  have l: "i < length (returns close)" using assms(3) by (simp add: returns_def)
  then have "roll_vol dates close vol_window ! i
      = np_mul (rolling_time vol_window agg_std dates (returns close) ! i) (Fin (sqrt 252))"
    by (simp add: roll_vol_def)
  then show ?thesis
    unfolding rolling_time_nth [OF l] window_observations [OF assms(3)]
    by (auto simp add: agg_std_sample_sd Let_def)
qed


lemma window_rows:
  assumes "k < length rows"
  shows "map (\<lambda>j. map f rows ! j) (filter (\<lambda>j. map g rows ! k - w < map g rows ! j) [0..<Suc k])
         = map f (filter (\<lambda>row. g (rows ! k) - w < g row) (take (Suc k) rows))"
proof -
  let ?js = "filter (\<lambda>j. g (rows ! k) - w < g (rows ! j)) [0..<Suc k]"
  have t: "take (Suc k) rows = map (\<lambda>j. rows ! j) [0..<Suc k]"
    using assms drop_take_nth [of "Suc k" rows 0] by simp
  have in_range: "j < length rows" if "j \<in> set [0..<Suc k]" for j
    using that assms by auto
  have "filter (\<lambda>j. map g rows ! k - w < map g rows ! j) [0..<Suc k] = ?js"
    by (rule filter_cong) (use assms in_range in auto)
  then have "map (\<lambda>j. map f rows ! j) (filter (\<lambda>j. map g rows ! k - w < map g rows ! j) [0..<Suc k])
      = map (\<lambda>j. map f rows ! j) ?js"
    by (rule arg_cong)
  also have "\<dots> = map (\<lambda>j. f (rows ! j)) ?js"
  proof (rule map_cong [OF refl])
    fix j assume "j \<in> set ?js"
    then have "j \<in> set [0..<Suc k]" by (rule filter_is_subset [THEN subsetD])
    then show "map f rows ! j = f (rows ! j)" using in_range by simp
  qed
  also have "\<dots> = map f (filter (\<lambda>row. g (rows ! k) - w < g row) (map (\<lambda>j. rows ! j) [0..<Suc k]))"
    by (simp only: filter_map map_map comp_def)
  finally show ?thesis by (simp only: t)
qed

lemma oil_vol_nth:
  assumes "k < length rows"
  shows "map (\<lambda>v. np_mul v (Fin (sqrt 252)))
           (rolling_time w agg_std (map g rows) (map f rows)) ! k
         = (let rs = observations (map f (filter (\<lambda>row. g (rows ! k) - w < g row) (take (Suc k) rows)))
            in if length rs \<le> 1 then NaN else Fin (spec_sample_sd rs * sqrt 252))"
proof -
  have l: "k < length (map f rows)" using assms by simp
  have "map (\<lambda>v. np_mul v (Fin (sqrt 252))) (rolling_time w agg_std (map g rows) (map f rows)) ! k
      = np_mul (rolling_time w agg_std (map g rows) (map f rows) ! k) (Fin (sqrt 252))"
    using assms by simp
  then show ?thesis
    unfolding rolling_time_nth [OF l] window_rows [OF assms]
    by (auto simp add: agg_std_sample_sd Let_def)
qed


lemma returns_nan_iff:
  assumes "0 < j" "j < length close"
  shows "(returns close ! j = NaN) = (close ! j = 0 \<and> close ! (j - 1) = 0)"
  using assms by (simp add: returns_nth np_sub_def)

lemma returns_Fin:
  assumes "0 < j" "j < length close"
  shows "close ! (j - 1) \<noteq> 0 \<Longrightarrow> returns close ! j = Fin (close ! j / close ! (j - 1) - 1)"
    and "close ! (j - 1) = 0 \<Longrightarrow> returns close ! j \<noteq> Fin x"
  using assms by (simp_all add: returns_nth np_sub_def)

lemma kept_rows_range:
  "j \<in> set (spec_oil_kept_rows brent wti) \<Longrightarrow> 0 < j \<and> j < length brent"
  by (auto simp add: spec_oil_kept_rows_def)

lemma oil_returns_rows:
  assumes "length index = length brent" "length wti = length brent"
  shows "oil_returns index brent wti
         = map (\<lambda>j. (index ! j, returns brent ! j, returns wti ! j)) (spec_oil_kept_rows brent wti)"
proof -
  let ?n = "length brent"
  let ?F = "\<lambda>j. (index ! j, returns brent ! j, returns wti ! j)"
  let ?P = "\<lambda>(t, b, w). b \<noteq> NaN \<and> w \<noteq> (NaN::npfloat)"
  have z: "zip index (zip (pct_change (map Fin brent)) (pct_change (map Fin wti))) = map ?F [0..<?n]"
    using assms by (intro nth_equalityI) (simp_all add: returns_def)
  have "filter (\<lambda>j. ?P (?F j)) [0..<?n] = spec_oil_kept_rows brent wti"
  proof (cases "?n = 0")
    case True
    then show ?thesis by (simp add: spec_oil_kept_rows_def)
  next
    case False
    then have u: "[0..<?n] = 0 # [1..<?n]" by (simp add: upt_conv_Cons)
    have b0: "returns brent ! 0 = NaN" using False by (simp add: returns_0)
    have "filter (\<lambda>j. ?P (?F j)) [1..<?n]
          = filter (\<lambda>j. \<not> (brent ! j = 0 \<and> brent ! (j - 1) = 0)
                       \<and> \<not> (wti ! j = 0 \<and> wti ! (j - 1) = 0)) [1..<?n]"
    proof (rule filter_cong [OF refl])
      fix j assume "j \<in> set [1..<?n]"
      then have j: "0 < j" "j < length brent" "j < length wti" using assms by auto
      show "?P (?F j) = (\<not> (brent ! j = 0 \<and> brent ! (j - 1) = 0)
                       \<and> \<not> (wti ! j = 0 \<and> wti ! (j - 1) = 0))"
        using returns_nan_iff [OF j(1) j(2)] returns_nan_iff [OF j(1) j(3)] by simp
    qed
    then show ?thesis
      unfolding u spec_oil_kept_rows_def using b0 by simp
  qed
  then show ?thesis
    unfolding oil_returns_def z by (simp add: filter_map comp_def)
qed

lemma oil_window_observations:
  assumes "length index = length price" "set kept \<subseteq> {j. 0 < j \<and> j < length price}"
    and "k < length kept"
  shows "observations (map f
            (filter (\<lambda>row. fst (map (\<lambda>j. (index ! j, F j)) kept ! k) - 2592000 < fst row)
               (take (Suc k) (map (\<lambda>j. (index ! j, F j)) kept))))
         = observations (map (\<lambda>j. f (index ! j, F j))
             (filter (\<lambda>j. index ! (kept ! k) - 2592000 < index ! j) (take (Suc k) kept)))"
  using assms by (simp add: take_map filter_map comp_def)

lemma oil_window_returns:
  assumes "length index = length price" "set kept \<subseteq> {j. 0 < j \<and> j < length price}"
  shows "observations (map (\<lambda>j. returns price ! j)
             (filter (\<lambda>j. index ! (kept ! k) - 2592000 < index ! j) (take (Suc k) kept)))
         = spec_oil_window_returns index price kept k"
proof -
  let ?js = "filter (\<lambda>j. index ! (kept ! k) - 2592000 < index ! j) (take (Suc k) kept)"
  have r: "0 < j \<and> j < length price" if "j \<in> set ?js" for j
    using that assms(2) by (auto dest: in_set_takeD)
  have "observations (map (\<lambda>j. returns price ! j) ?js)
        = map (\<lambda>j. price ! j / price ! (j - 1) - 1) (filter (\<lambda>j. price ! (j - 1) \<noteq> 0) ?js)"
  proof (rule observations_map)
    fix j assume "j \<in> set ?js" "price ! (j - 1) \<noteq> 0"
    then show "returns price ! j = Fin (price ! j / price ! (j - 1) - 1)"
      using r [of j] by (simp add: returns_Fin)
  next
    fix j x assume "j \<in> set ?js" "\<not> price ! (j - 1) \<noteq> 0"
    then show "returns price ! j \<noteq> Fin x"
      using r [of j] returns_Fin(2) [of j price x] by simp
  qed
  then show ?thesis
    by (simp add: spec_oil_window_returns_def conj_commute)
qed


lemma oil_vol_from_prices:
  assumes len: "length index = length brent" "length wti = length brent"
    and k: "k < length (spec_oil_kept_rows brent wti)"
  shows "fst (oil_vol index brent wti) ! k =
           (let rs = spec_oil_window_returns index brent (spec_oil_kept_rows brent wti) k
            in if length rs \<le> 1 then NaN else Fin (spec_sample_sd rs * sqrt 252))"
    and "snd (oil_vol index brent wti) ! k =
           (let rs = spec_oil_window_returns index wti (spec_oil_kept_rows brent wti) k
            in if length rs \<le> 1 then NaN else Fin (spec_sample_sd rs * sqrt 252))"
    and "length (fst (oil_vol index brent wti)) = length (spec_oil_kept_rows brent wti)"
    and "length (snd (oil_vol index brent wti)) = length (spec_oil_kept_rows brent wti)"
proof -
  let ?kept = "spec_oil_kept_rows brent wti"
  let ?F = "\<lambda>j. (returns brent ! j, returns wti ! j)"
  let ?rows = "map (\<lambda>j. (index ! j, ?F j)) ?kept"
  have rows: "oil_returns index brent wti = ?rows"
    using len by (rule oil_returns_rows)
  have kr: "k < length ?rows" using k by simp
  have sb: "set ?kept \<subseteq> {j. 0 < j \<and> j < length brent}"
    using kept_rows_range by blast
  have sw: "set ?kept \<subseteq> {j. 0 < j \<and> j < length wti}"
    using kept_rows_range len by auto
  have lw: "length index = length wti" using len by simp
  have ob: "observations (map (\<lambda>row. fst (snd row))
              (filter (\<lambda>row. fst (?rows ! k) - 2592000 < fst row) (take (Suc k) ?rows)))
            = spec_oil_window_returns index brent ?kept k"
    using oil_window_observations [OF len(1) sb k, of "\<lambda>row. fst (snd row)" ?F]
      oil_window_returns [OF len(1) sb, of k]
    by simp
  have ow: "observations (map (\<lambda>row. snd (snd row))
              (filter (\<lambda>row. fst (?rows ! k) - 2592000 < fst row) (take (Suc k) ?rows)))
            = spec_oil_window_returns index wti ?kept k"
    using oil_window_observations [OF lw sw k, of "\<lambda>row. snd (snd row)" ?F]
      oil_window_returns [OF lw sw, of k]
    by simp
  show "fst (oil_vol index brent wti) ! k =
           (let rs = spec_oil_window_returns index brent ?kept k
            in if length rs \<le> 1 then NaN else Fin (spec_sample_sd rs * sqrt 252))"
    unfolding oil_vol_def rows Let_def fst_conv
    using oil_vol_nth [OF kr, where f = "\<lambda>row. fst (snd row)" and w = 2592000 and g = fst,
        unfolded Let_def ob]
    by (simp only:)
  show "snd (oil_vol index brent wti) ! k =
           (let rs = spec_oil_window_returns index wti ?kept k
            in if length rs \<le> 1 then NaN else Fin (spec_sample_sd rs * sqrt 252))"
    unfolding oil_vol_def rows Let_def snd_conv
    using oil_vol_nth [OF kr, where f = "\<lambda>row. snd (snd row)" and w = 2592000 and g = fst,
        unfolded Let_def ow]
    by (simp only:)
  show "length (fst (oil_vol index brent wti)) = length ?kept"
    by (simp add: oil_vol_def rows Let_def)
  show "length (snd (oil_vol index brent wti)) = length ?kept"
    by (simp add: oil_vol_def rows Let_def)
qed

text \<open>
  C7.  For every Close series and every chosen window, the rolling annualised
  volatility of the Candle Stick Viewer at each date is the sample standard deviation
  of the daily percent-change returns within that window times \<open>sqrt 252\<close>, and NaN
  where the window holds fewer than two returns.  The Oil page computes the same
  over its fixed 30-day window, for each crude: its volatility columns have one
  value per row of the returns frame, the sample standard deviation of that crude's
  percent-change returns within the window times \<open>sqrt 252\<close>.
\<close>

theorem rolling_vol_is_annualised_sd:
  "(sorted dates \<longrightarrow> length dates = length close \<longrightarrow> i < length close \<longrightarrow>
      roll_vol dates close vol_window ! i =
        (if length (spec_window_returns dates close vol_window i) \<le> 1 then NaN
         else Fin (spec_sample_sd (spec_window_returns dates close vol_window i) * sqrt 252)))
   \<and> (sorted index \<longrightarrow> length index = length brent \<longrightarrow> length wti = length brent \<longrightarrow>
      k < length (spec_oil_kept_rows brent wti) \<longrightarrow>
      length (fst (oil_vol index brent wti)) = length (spec_oil_kept_rows brent wti)
      \<and> length (snd (oil_vol index brent wti)) = length (spec_oil_kept_rows brent wti)
      \<and> fst (oil_vol index brent wti) ! k =
        (let rs = spec_oil_window_returns index brent (spec_oil_kept_rows brent wti) k
         in if length rs \<le> 1 then NaN else Fin (spec_sample_sd rs * sqrt 252))
      \<and> snd (oil_vol index brent wti) ! k =
        (let rs = spec_oil_window_returns index wti (spec_oil_kept_rows brent wti) k
         in if length rs \<le> 1 then NaN else Fin (spec_sample_sd rs * sqrt 252)))"
proof (intro conjI impI)
  assume "sorted dates" "length dates = length close" "i < length close"
  then show "roll_vol dates close vol_window ! i =
        (if length (spec_window_returns dates close vol_window i) \<le> 1 then NaN
         else Fin (spec_sample_sd (spec_window_returns dates close vol_window i) * sqrt 252))"
    by (rule roll_vol_nth)
next
  assume a: "length index = length brent" "length wti = length brent"
    "k < length (spec_oil_kept_rows brent wti)"
  note v = oil_vol_from_prices [OF a]
  show "length (fst (oil_vol index brent wti)) = length (spec_oil_kept_rows brent wti)"
    by (rule v(3))
  show "length (snd (oil_vol index brent wti)) = length (spec_oil_kept_rows brent wti)"
    by (rule v(4))
  show "fst (oil_vol index brent wti) ! k =
        (let rs = spec_oil_window_returns index brent (spec_oil_kept_rows brent wti) k
         in if length rs \<le> 1 then NaN else Fin (spec_sample_sd rs * sqrt 252))"
    by (rule v(1))
  show "snd (oil_vol index brent wti) ! k =
        (let rs = spec_oil_window_returns index wti (spec_oil_kept_rows brent wti) k
         in if length rs \<le> 1 then NaN else Fin (spec_sample_sd rs * sqrt 252))"
    by (rule v(2))
qed

lemma kept_example: "spec_oil_kept_rows [1, 2, 4] [1, 3, 9] = [1, 2]"
  by (simp add: spec_oil_kept_rows_def upt_rec)

theorem rolling_vol_is_annualised_sd_witness:
  "sorted [0, 1, 2 :: int] \<and> length [0, 1, 2 :: int] = length [1, 2, 4 :: real]
   \<and> (2::nat) < length [1, 2, 4 :: real]
   \<and> roll_vol [0, 1, 2] [1, 2, 4] 30 ! 2 =
        (if length (spec_window_returns [0, 1, 2] [1, 2, 4] 30 2) \<le> 1 then NaN
         else Fin (spec_sample_sd (spec_window_returns [0, 1, 2] [1, 2, 4] 30 2) * sqrt 252))
   \<and> sorted [0, 60, 120 :: int]
   \<and> length [0, 60, 120 :: int] = length [1, 2, 4 :: real]
   \<and> length [1, 3, 9 :: real] = length [1, 2, 4 :: real]
   \<and> (1::nat) < length (spec_oil_kept_rows [1, 2, 4] [1, 3, 9])
   \<and> fst (oil_vol [0, 60, 120] [1, 2, 4] [1, 3, 9]) ! 1 =
        (let rs = spec_oil_window_returns [0, 60, 120] [1, 2, 4]
                    (spec_oil_kept_rows [1, 2, 4] [1, 3, 9]) 1
         in if length rs \<le> 1 then NaN else Fin (spec_sample_sd rs * sqrt 252))"
proof -
  have h1: "sorted [0, 1, 2 :: int]" by simp
  have h2: "length [0, 1, 2 :: int] = length [1, 2, 4 :: real]" by simp
  have h3: "(2::nat) < length [1, 2, 4 :: real]" by simp
  have h4: "sorted [0, 60, 120 :: int]" by simp
  have h5: "length [0, 60, 120 :: int] = length [1, 2, 4 :: real]" by simp
  have h6: "length [1, 3, 9 :: real] = length [1, 2, 4 :: real]" by simp
  have h7: "(1::nat) < length (spec_oil_kept_rows [1, 2, 4] [1, 3, 9])"
    by (simp add: kept_example)
  note t = rolling_vol_is_annualised_sd
    [of "[0, 1, 2]" "[1, 2, 4]" 2 30 "[0, 60, 120]" "[1, 2, 4]" "[1, 3, 9]" 1]
  from t h1 h2 h3 have a: "roll_vol [0, 1, 2] [1, 2, 4] 30 ! 2 =
        (if length (spec_window_returns [0, 1, 2] [1, 2, 4] 30 2) \<le> 1 then NaN
         else Fin (spec_sample_sd (spec_window_returns [0, 1, 2] [1, 2, 4] 30 2) * sqrt 252))"
    by blast
  from t h4 h5 h6 h7 have b: "fst (oil_vol [0, 60, 120] [1, 2, 4] [1, 3, 9]) ! 1 =
        (let rs = spec_oil_window_returns [0, 60, 120] [1, 2, 4]
                    (spec_oil_kept_rows [1, 2, 4] [1, 3, 9]) 1
         in if length rs \<le> 1 then NaN else Fin (spec_sample_sd rs * sqrt 252))"
    by blast
  from h1 h2 h3 a h4 h5 h6 h7 b show ?thesis by (intro conjI)
qed

subsection \<open>Empty data\<close>

text \<open>The Candle Stick Viewer and Metals stop on empty data with an error message.\<close>

lemma candle_page_empty:
  "in_range start endd data = [] \<Longrightarrow>
   candle_page start endd data info
     = ([Error ''No data found for this date range.'', Caption ''footer''], None)"
  by (simp add: candle_page_def)

lemma candle_page_computes:
  assumes "Metric m \<in> set (fst (candle_page start endd data info))
           \<or> Chart n xs \<in> set (fst (candle_page start endd data info))"
  shows "in_range start endd data \<noteq> []"
  using assms by (auto simp add: candle_page_def)

lemma metals_page_empty:
  "selected_tickers \<noteq> [] \<Longrightarrow> raw = None \<or> (\<exists>frame. raw = Some frame \<and> frame_empty frame) \<Longrightarrow>
   metals_page selected_tickers raw rest
     = [Error ''No data returned for the selected tickers/date range.'']"
  by (auto simp add: metals_page_def)

text \<open>
  C8.  The claim: whenever the fetched (or range-filtered) price data is empty, the
  page shows an error message and computes no indicators, metrics or charts from it.
  The Candle Stick Viewer and Metals do so (\<open>candle_page_empty\<close>,
  \<open>candle_page_computes\<close>, \<open>metals_page_empty\<close>).  The Oil page has no such check: on
  an empty frame it renders the caption and the six quote metrics, shows no error
  message, and goes on to draw the price chart from the empty frame, where it stops
  with an uncaught ValueError.
\<close>

theorem oil_page_on_empty_data:
  "oil_page 0 365 [] [] [] \<lparr>last_price = Fin 80, previous_close = Fin 79\<rparr>
      \<lparr>last_price = Fin 76, previous_close = Fin 75\<rparr> 30
   = ([Caption ''Data interval automatically set'',
       Metric ''Brent Last Price'', Metric ''Brent Previous Close'', Metric ''Brent Change ($)'',
       Metric ''WTI Last Price'', Metric ''WTI Previous Close'', Metric ''WTI Change ($)''],
      Some ValueError)"
  by (simp add: oil_page_def oil_change_def py_truediv_def np_sub_def)

text \<open>With a single row of data the returns frame is empty and the script stops at the returns chart.\<close>

lemma oil_page_on_one_row:
  "oil_page 0 365 [0] [80] [76] \<lparr>last_price = Fin 80, previous_close = Fin 79\<rparr>
      \<lparr>last_price = Fin 76, previous_close = Fin 75\<rparr> 30
   = ([Caption ''Data interval automatically set'',
       Metric ''Brent Last Price'', Metric ''Brent Previous Close'', Metric ''Brent Change ($)'',
       Metric ''WTI Last Price'', Metric ''WTI Previous Close'', Metric ''WTI Change ($)'',
       Chart ''Brent vs WTI Price Chart'' [0]],
      Some ValueError)"
  by (simp add: oil_page_def oil_change_def py_truediv_def np_sub_def oil_returns_def
      pct_change_def)

subsection \<open>Displayed date range\<close>

text \<open>
  The four filtered frames (\<open>display_data\<close>, \<open>ema_display\<close>, \<open>bb_display\<close>,
  \<open>rsi_display\<close>) hold only rows dated within \<open>[start, end]\<close>, and so do the charts
  of tabs 1, 2, 4 and 5.
\<close>

lemma in_range_dates:
  "row \<in> set (in_range start endd data) \<Longrightarrow> start \<le> Date row \<and> Date row \<le> endd"
  by (simp add: in_range_def)

lemma candle_display_frames_in_range:
  assumes "Chart name xs \<in> set (fst (candle_page start endd data info))"
    and "name \<noteq> ''Rolling Volatility & VaR''" and "d \<in> set xs"
  shows "start \<le> d \<and> d \<le> endd"
  using assms
  by (auto simp add: candle_page_def Let_def in_range_def split: if_splits sum.splits)

text \<open>
  C10.  The claim: every row of the displayed frames is dated within \<open>[start, end]\<close>
  and no row outside the chosen range is ever rendered.  The four filtered frames
  are in range (\<open>in_range_dates\<close>, \<open>candle_display_frames_in_range\<close>), but tab 3 plots
  the unfiltered \<open>returns["Date"]\<close>: with \<open>start = 400\<close>, \<open>end = 500\<close> and fetched rows
  dated 100 and 450, the Rolling Volatility and VaR chart renders the row dated 100.
\<close>

theorem candle_tab3_out_of_range:
  "candle_page 400 500
     [\<lparr>Date = 100, Open = 1, High = 1, Low = 1, Close = 1, Volume = 1\<rparr>,
      \<lparr>Date = 450, Open = 2, High = 2, Low = 2, Close = 2, Volume = 1\<rparr>]
     \<lparr>last_price = Fin 2, previous_close = Fin 1\<rparr>
   = ([Metric ''Last Price (Daily % Change)'', Metric ''Previous Close'', Metric ''Change ($)'',
       Chart ''Candlestick'' [450],
       Chart ''EMA Overlay'' [450],
       Chart ''Rolling Volatility & VaR'' [100, 450],
       Chart ''Bollinger Bands'' [450],
       Chart ''RSI'' [450],
       Caption ''footer''], None)"
  by (simp add: candle_page_def in_range_def candle_change_pct_def py_truediv_def np_sub_def)

end
